theory Spec2Isabelle
  imports Main "HOL-Library.Word" "HOL-Library.Sublist"
begin

section \<open>Python values\<close>

text \<open>
  A Python \<open>str\<close> is a sequence of Unicode code points and \<open>bytes\<close> a sequence of
  octets. String literals of the source are written \<open>lit ''...''\<close>.
\<close>

type_synonym pystr = "nat list"

type_synonym bytes = "8 word list"

definition lit :: "string \<Rightarrow> pystr" where
  "lit cs = map of_char cs"

text \<open>The exceptions the programs can meet; all of them are subclasses of \<open>Exception\<close>.\<close>

datatype exn =
    ValueError
  | UnicodeDecodeError
  | ConnectionError
  | Timeout
  | FileNotFoundError
  | AMQPConnectionError
  | ChannelWrongStateError
  | UnicodeEncodeError
  | AttributeError

subsection \<open>\<open>str.strip()\<close> and \<open>str.split(sep)\<close>\<close>

text \<open>
  \<open>str.strip()\<close> without argument removes the leading and trailing code points for which
  \<open>str.isspace\<close> holds: U+0009..U+000D, U+001C..U+0020, U+0085, U+00A0, U+1680,
  U+2000..U+200A, U+2028, U+2029, U+202F, U+205F and U+3000.
\<close>

definition isspace :: "nat \<Rightarrow> bool" where
  "isspace c \<longleftrightarrow>
     (9 \<le> c \<and> c \<le> 13) \<or> (28 \<le> c \<and> c \<le> 32) \<or> c = 133 \<or> c = 160 \<or> c = 5760 \<or>
     (8192 \<le> c \<and> c \<le> 8202) \<or> c = 8232 \<or> c = 8233 \<or> c = 8239 \<or> c = 8287 \<or> c = 12288"

definition strip :: "pystr \<Rightarrow> pystr" where
  "strip s = rev (dropWhile isspace (rev (dropWhile isspace s)))"

text \<open>
  \<open>s.split(sep)\<close> with an explicit one-character separator cuts at every occurrence of
  the separator and keeps empty pieces; the result is never the empty list
  (\<open>''.split(',') == ['']\<close>).
\<close>

fun split :: "nat \<Rightarrow> pystr \<Rightarrow> pystr list" where
  "split sep [] = [[]]"
| "split sep (c # cs) =
     (if c = sep then [] # split sep cs
      else (case split sep cs of
              [] \<Rightarrow> [[c]]
            | p # ps \<Rightarrow> (c # p) # ps))"

definition comma :: nat where
  "comma = 44"

text \<open>
  The tuple assignment \<open>op_area, _ = query_param.split(',')\<close> raises \<open>ValueError\<close> unless
  the right-hand side has exactly two items.
\<close>

fun unpack_pair :: "pystr list \<Rightarrow> exn + (pystr \<times> pystr)" where
  "unpack_pair [a, b] = Inr (a, b)"
| "unpack_pair _ = Inl ValueError"

text \<open>
  The decoding steps of \<open>process_message\<close> taken together: \<open>body.strip()\<close> (line 20) and
  the unpacking of \<open>query_param.split(',')\<close> (line 32).
\<close>

definition decode_event :: "pystr \<Rightarrow> exn + (pystr \<times> pystr)" where
  "decode_event body = unpack_pair (split comma (strip body))"

text \<open>
  The wire format of an event, \<open><area>,<station>\<close>. The producer publishes the scanned
  string unchanged (\<open>body=data\<close>), so this is the string the scanner hands over
  (\<open>'OP7,S500'\<close> in the comments of the source).
\<close>

definition wire :: "pystr \<Rightarrow> pystr \<Rightarrow> pystr" where
  "wire area station = area @ comma # station"


section \<open>The outside world\<close>

text \<open>
  Every call that leaves the program (to the broker through \<open>pika\<close>, to the web
  application through \<open>requests\<close>, to the operating system through \<open>subprocess\<close>, to
  standard output through \<open>print\<close>) is recorded, together with what it returned or raised.
  The world answers a call knowing everything that happened before, so an answer may
  change from one attempt to the next.
\<close>

text \<open>
  What a \<open>print\<close> writes, piece by piece: text, the \<open>str\<close> of an exception, the \<open>str\<close> of
  an integer.
\<close>

datatype fragment = Text pystr | StrExn exn | StrInt nat

datatype call =
    BlockingConnection pystr
  | Channel
  | QueueDeclare pystr
  | BasicPublish pystr pystr pystr
  | ConnectionClose
  | BasicConsume pystr bool
  | BasicAck nat
  | RequestsGet pystr
  | SubprocessRun "pystr list"
  | Print "fragment list"

datatype retval =
    NoneVal
  | Response nat
  | CompletedProcess int pystr pystr

datatype outcome = Raises exn | Returns retval

type_synonym event = "call \<times> outcome"

type_synonym world = "event list \<Rightarrow> call \<Rightarrow> outcome"

type_synonym 'a result = "(exn + 'a) \<times> event list"

definition invoke :: "world \<Rightarrow> call \<Rightarrow> event list \<Rightarrow> retval result" where
  "invoke w c tr =
     (case w tr c of
        Raises e \<Rightarrow> (Inl e, tr @ [(c, Raises e)])
      | Returns v \<Rightarrow> (Inr v, tr @ [(c, Returns v)]))"

text \<open>One statement after the other: an exception of the first ends the sequence.\<close>

definition and_then ::
  "(event list \<Rightarrow> 'a result) \<Rightarrow> ('a \<Rightarrow> event list \<Rightarrow> 'b result) \<Rightarrow> event list \<Rightarrow> 'b result" where
  "and_then m f tr =
     (case m tr of
        (Inl e, tr') \<Rightarrow> (Inl e, tr')
      | (Inr x, tr') \<Rightarrow> f x tr')"

definition returns :: "'a \<Rightarrow> event list \<Rightarrow> 'a result" where
  "returns x tr = (Inr x, tr)"

text \<open>A computation inside the program, which raises or gives a value without a call.\<close>

definition evaluate :: "exn + 'a \<Rightarrow> event list \<Rightarrow> 'a result" where
  "evaluate v tr = (v, tr)"

definition py_print :: "world \<Rightarrow> fragment list \<Rightarrow> event list \<Rightarrow> unit result" where
  "py_print w fs = and_then (invoke w (Print fs)) (\<lambda>v. returns ())"

text \<open>
  \<open>try: ... except Exception as e: ...\<close>: whatever the block raises is caught and handed to
  the handler; what the handler raises is not caught.
\<close>

definition try_except ::
  "(event list \<Rightarrow> unit result) \<Rightarrow> (exn \<Rightarrow> event list \<Rightarrow> unit result) \<Rightarrow> event list \<Rightarrow> unit result" where
  "try_except block handler tr =
     (case block tr of
        (Inl e, tr') \<Rightarrow> handler e tr'
      | (Inr u, tr') \<Rightarrow> (Inr (), tr'))"

text \<open>
  Attribute access on what a call returned: \<open>resp.status_code\<close>, \<open>result.stdout\<close>,
  \<open>result.stderr\<close>. An object of another kind has no such attribute.
\<close>

fun status_code :: "retval \<Rightarrow> exn + nat" where
  "status_code (Response status) = Inr status"
| "status_code v = Inl AttributeError"

fun stdout_of :: "retval \<Rightarrow> exn + pystr" where
  "stdout_of (CompletedProcess returncode out err) = Inr out"
| "stdout_of v = Inl AttributeError"

fun stderr_of :: "retval \<Rightarrow> exn + pystr" where
  "stderr_of (CompletedProcess returncode out err) = Inr err"
| "stderr_of v = Inl AttributeError"

text \<open>\<open>sep.join(items)\<close>.\<close>

fun join :: "pystr \<Rightarrow> pystr list \<Rightarrow> pystr" where
  "join sep [] = []"
| "join sep [x] = x"
| "join sep (x # y # ys) = x @ sep @ join sep (y # ys)"

subsection \<open>\<open>bytes.decode()\<close>\<close>

text \<open>
  \<open>body.decode()\<close> decodes UTF-8 strictly: it raises \<open>UnicodeDecodeError\<close> on a stray or
  missing continuation byte, on an overlong form, on an encoded surrogate and beyond
  U+10FFFF.
\<close>

definition cont :: "nat \<Rightarrow> bool" where
  "cont b \<longleftrightarrow> 128 \<le> b \<and> b \<le> 191"

definition push :: "nat \<Rightarrow> exn + pystr \<Rightarrow> exn + pystr" where
  "push c r = (case r of Inl e \<Rightarrow> Inl e | Inr cs \<Rightarrow> Inr (c # cs))"

fun utf8 :: "nat list \<Rightarrow> exn + pystr" where
  "utf8 [] = Inr []"
| "utf8 [b0] = (if b0 < 128 then Inr [b0] else Inl UnicodeDecodeError)"
| "utf8 [b0, b1] =
     (if b0 < 128 then push b0 (utf8 [b1])
      else if 194 \<le> b0 \<and> b0 \<le> 223 \<and> cont b1 then Inr [(b0 - 192) * 64 + (b1 - 128)]
      else Inl UnicodeDecodeError)"
| "utf8 [b0, b1, b2] =
     (if b0 < 128 then push b0 (utf8 [b1, b2])
      else if 194 \<le> b0 \<and> b0 \<le> 223 \<and> cont b1
        then push ((b0 - 192) * 64 + (b1 - 128)) (utf8 [b2])
      else if 224 \<le> b0 \<and> b0 \<le> 239 \<and> cont b1 \<and> cont b2
              \<and> (b0 = 224 \<longrightarrow> 160 \<le> b1) \<and> (b0 = 237 \<longrightarrow> b1 \<le> 159)
        then Inr [(b0 - 224) * 4096 + (b1 - 128) * 64 + (b2 - 128)]
      else Inl UnicodeDecodeError)"
| "utf8 (b0 # b1 # b2 # b3 # bs) =
     (if b0 < 128 then push b0 (utf8 (b1 # b2 # b3 # bs))
      else if 194 \<le> b0 \<and> b0 \<le> 223 \<and> cont b1
        then push ((b0 - 192) * 64 + (b1 - 128)) (utf8 (b2 # b3 # bs))
      else if 224 \<le> b0 \<and> b0 \<le> 239 \<and> cont b1 \<and> cont b2
              \<and> (b0 = 224 \<longrightarrow> 160 \<le> b1) \<and> (b0 = 237 \<longrightarrow> b1 \<le> 159)
        then push ((b0 - 224) * 4096 + (b1 - 128) * 64 + (b2 - 128)) (utf8 (b3 # bs))
      else if 240 \<le> b0 \<and> b0 \<le> 244 \<and> cont b1 \<and> cont b2 \<and> cont b3
              \<and> (b0 = 240 \<longrightarrow> 144 \<le> b1) \<and> (b0 = 244 \<longrightarrow> b1 \<le> 143)
        then push ((b0 - 240) * 262144 + (b1 - 128) * 4096 + (b2 - 128) * 64 + (b3 - 128))
               (utf8 bs)
      else Inl UnicodeDecodeError)"

definition bytes_decode :: "bytes \<Rightarrow> exn + pystr" where
  "bytes_decode body = utf8 (map unat body)"


section \<open>The consumer (\<open>rabbitmq_consumer.py\<close>)\<close>

definition RABBITMQ_HOST :: pystr where
  "RABBITMQ_HOST = lit ''localhost''"

definition RABBITMQ_QUEUE :: pystr where
  "RABBITMQ_QUEUE = lit ''qrscan''"

definition FLASK_URL_BASE :: pystr where
  "FLASK_URL_BASE = lit ''http://localhost:5000/?query=''"

definition NODE_SCRIPT_PATH :: pystr where
  "NODE_SCRIPT_PATH = lit ''/path/to/S500.js''"

definition node_cmd :: "pystr \<Rightarrow> pystr list" where
  "node_cmd op_area = [lit ''node'', NODE_SCRIPT_PATH, lit ''--add'', lit ''--db'', op_area]"

text \<open>
  The first \<open>try\<close> statement of \<open>process_message\<close> (lines 24 to 28): the request and the
  print of its status, with the handler that prints the exception.
\<close>

definition call_flask :: "world \<Rightarrow> pystr \<Rightarrow> event list \<Rightarrow> unit result" where
  "call_flask w flask_url =
     try_except
       (and_then (invoke w (RequestsGet flask_url)) (\<lambda>resp.
        and_then (evaluate (status_code resp)) (\<lambda>status.
        py_print w [Text (lit ''Flask response status: ''), StrInt status])))
       (\<lambda>e. py_print w [Text (lit ''Error calling Flask app: ''), StrExn e])"

text \<open>
  The second \<open>try\<close> statement (lines 31 to 46): unpacking, the print of the command, the
  Node script, the prints of its output, with the handler that prints the exception.
\<close>

definition call_node :: "world \<Rightarrow> pystr \<Rightarrow> event list \<Rightarrow> unit result" where
  "call_node w query_param =
     try_except
       (and_then (evaluate (unpack_pair (split comma query_param))) (\<lambda>(op_area, station).
        and_then (py_print w [Text (lit ''Running Node script: ''),
                              Text (join (lit '' '') (node_cmd op_area))]) (\<lambda>u.
        and_then (invoke w (SubprocessRun (node_cmd op_area))) (\<lambda>result.
        and_then (evaluate (stdout_of result)) (\<lambda>out.
        and_then (py_print w [Text (lit ''Node script output:''), Text (lit '' ''), Text out]) (\<lambda>u.
        and_then (evaluate (stderr_of result)) (\<lambda>err.
        if err \<noteq> []
        then py_print w [Text (lit ''Node script error:''), Text (lit '' ''), Text err]
        else returns ())))))))
       (\<lambda>e. py_print w [Text (lit ''Error running Node script: ''), StrExn e])"

definition process_message :: "world \<Rightarrow> pystr \<Rightarrow> event list \<Rightarrow> unit result" where
  "process_message w body =
     and_then (py_print w [Text (lit ''Received message: ''), Text body]) (\<lambda>u.
     let query_param = strip body;
         flask_url = FLASK_URL_BASE @ query_param
     in and_then (py_print w [Text (lit ''Calling Flask app: ''), Text flask_url]) (\<lambda>u.
        and_then (call_flask w flask_url) (\<lambda>u.
        call_node w query_param)))"

definition callback :: "world \<Rightarrow> nat \<Rightarrow> bytes \<Rightarrow> event list \<Rightarrow> unit result" where
  "callback w delivery_tag body =
     and_then (evaluate (bytes_decode body)) (\<lambda>s.
     and_then (process_message w s) (\<lambda>u.
     and_then (invoke w (BasicAck delivery_tag)) (\<lambda>v.
     returns ())))"

text \<open>
  \<open>channel.start_consuming()\<close> hands each delivery (delivery tag and body) to the
  callback, one after the other, and lets an exception of the callback through. The list
  is what the broker delivers while the consumer is watched; at its end the consumer has
  not returned, it waits for the next delivery, and the result \<open>Inr ()\<close> says that no
  exception has ended it so far.
\<close>

fun start_consuming :: "world \<Rightarrow> (nat \<times> bytes) list \<Rightarrow> event list \<Rightarrow> unit result" where
  "start_consuming w [] tr = (Inr (), tr)"
| "start_consuming w ((delivery_tag, body) # ds) tr =
     (case callback w delivery_tag body tr of
        (Inl e, tr') \<Rightarrow> (Inl e, tr')
      | (Inr u, tr') \<Rightarrow> start_consuming w ds tr')"



section \<open>The producer (\<open>qrscan_producer.py\<close>)\<close>

definition send_to_rabbitmq :: "world \<Rightarrow> pystr \<Rightarrow> event list \<Rightarrow> unit result" where
  "send_to_rabbitmq w data =
     and_then (invoke w (BlockingConnection RABBITMQ_HOST)) (\<lambda>connection.
     and_then (invoke w Channel) (\<lambda>channel.
     and_then (invoke w (QueueDeclare RABBITMQ_QUEUE)) (\<lambda>v.
     and_then (invoke w (BasicPublish [] RABBITMQ_QUEUE data)) (\<lambda>v.
     and_then (invoke w ConnectionClose) (\<lambda>v.
     py_print w [Text (lit ''Sent: ''), Text data])))))"

text \<open>
  The producer's loop, over the strings \<open>scan_qr_code()\<close> returns while the producer is
  watched; an empty result is skipped and an exception of \<open>send_to_rabbitmq\<close> ends the
  loop. At the end of the list the loop has not returned: \<open>Inr ()\<close> says that no exception
  has ended it so far.
\<close>

fun producer_main :: "world \<Rightarrow> pystr list \<Rightarrow> event list \<Rightarrow> unit result" where
  "producer_main w [] tr = (Inr (), tr)"
| "producer_main w (qr_data # rest) tr =
     (if qr_data \<noteq> []
      then (case send_to_rabbitmq w qr_data tr of
              (Inl e, tr') \<Rightarrow> (Inl e, tr')
            | (Inr u, tr') \<Rightarrow> producer_main w rest tr')
      else producer_main w rest tr)"


section \<open>Reading a trace\<close>

definition calls :: "event list \<Rightarrow> call list" where
  "calls tr = map fst tr"

fun is_print :: "call \<Rightarrow> bool" where
  "is_print (Print fs) = True"
| "is_print c = False"

text \<open>The calls of a trace other than the prints.\<close>

definition effects :: "event list \<Rightarrow> call list" where
  "effects tr = filter (\<lambda>c. \<not> is_print c) (calls tr)"

text \<open>The events of a trace other than the prints, each call with what it returned.\<close>

definition effect_events :: "event list \<Rightarrow> event list" where
  "effect_events tr = filter (\<lambda>ev. \<not> is_print (fst ev)) tr"

fun is_ack :: "call \<Rightarrow> bool" where
  "is_ack (BasicAck t) = True"
| "is_ack c = False"

fun is_http :: "call \<Rightarrow> bool" where
  "is_http (RequestsGet u) = True"
| "is_http c = False"

fun is_run :: "call \<Rightarrow> bool" where
  "is_run (SubprocessRun c) = True"
| "is_run c = False"

fun is_connect :: "call \<Rightarrow> bool" where
  "is_connect (BlockingConnection h) = True"
| "is_connect c = False"

fun is_subscribe :: "call \<Rightarrow> bool" where
  "is_subscribe (BasicConsume q a) = True"
| "is_subscribe c = False"

fun raised :: "event \<Rightarrow> bool" where
  "raised (c, Raises e) = True"
| "raised (c, Returns v) = False"

text \<open>
  The calls, other than prints, that one delivery makes before its acknowledgement, in
  order: the HTTP request, and the Node script when the trimmed body unpacks into two
  pieces.
\<close>

definition node_calls :: "pystr \<Rightarrow> call list" where
  "node_calls s =
     (case decode_event s of
        Inl e \<Rightarrow> []
      | Inr (op_area, station) \<Rightarrow> [SubprocessRun (node_cmd op_area)])"

definition action_calls :: "pystr \<Rightarrow> call list" where
  "action_calls s = RequestsGet (FLASK_URL_BASE @ strip s) # node_calls s"

definition delivery_calls :: "nat \<times> bytes \<Rightarrow> call list" where
  "delivery_calls d =
     (case bytes_decode (snd d) of
        Inl e \<Rightarrow> []
      | Inr s \<Rightarrow> action_calls s @ [BasicAck (fst d)])"

text \<open>
  What the calls of one delivery, prints apart, can be when a call may raise: calls of
  \<open>action_calls\<close> in their order, from the first on, and after them possibly the
  acknowledgement, which has at least the request before it. A body that does not decode
  gives no call.
\<close>

definition delivery_block :: "nat \<times> bytes \<Rightarrow> call list \<Rightarrow> bool" where
  "delivery_block d cs =
     (case bytes_decode (snd d) of
        Inl e \<Rightarrow> cs = []
      | Inr s \<Rightarrow>
          list_ex (\<lambda>pre. cs = pre \<or> (pre \<noteq> [] \<and> cs = pre @ [BasicAck (fst d)]))
            (prefixes (action_calls s)))"

text \<open>The delivery tags acknowledged by a sequence of calls, in order.\<close>

fun acked_tags :: "call list \<Rightarrow> nat list" where
  "acked_tags [] = []"
| "acked_tags (BasicAck t # cs) = t # acked_tags cs"
| "acked_tags (c # cs) = acked_tags cs"


definition publish_calls :: "pystr \<Rightarrow> call list" where
  "publish_calls data =
     [BlockingConnection RABBITMQ_HOST, Channel, QueueDeclare RABBITMQ_QUEUE,
      BasicPublish [] RABBITMQ_QUEUE data, ConnectionClose,
      Print [Text (lit ''Sent: ''), Text data]]"


section \<open>The outcome taxonomy of the specification\<close>

text \<open>
  The specification classifies what each downstream action reports, combines the two
  kinds into one result per event, and turns the result into the decision handed to the
  broker. These definitions follow the words of the specification; they are what the
  consumer's behaviour is compared with.
\<close>

datatype kind = Success | TransientFailure | PermanentFailure

fun spec_combine :: "kind \<Rightarrow> kind \<Rightarrow> kind" where
  "spec_combine Success Success = Success"
| "spec_combine TransientFailure k = TransientFailure"
| "spec_combine Success TransientFailure = TransientFailure"
| "spec_combine PermanentFailure TransientFailure = TransientFailure"
| "spec_combine Success PermanentFailure = PermanentFailure"
| "spec_combine PermanentFailure Success = PermanentFailure"
| "spec_combine PermanentFailure PermanentFailure = PermanentFailure"

datatype ack_decision = Ack | Nack bool

fun spec_ack_decision :: "kind \<Rightarrow> ack_decision" where
  "spec_ack_decision Success = Ack"
| "spec_ack_decision TransientFailure = Nack True"
| "spec_ack_decision PermanentFailure = Nack False"

text \<open>
  Notification action: no response is a transient failure; a status 2xx or 3xx is a
  success; 4xx other than 429 is a permanent failure; every other status is transient.
\<close>

fun spec_http_kind :: "outcome \<Rightarrow> kind" where
  "spec_http_kind (Returns (Response status)) =
     (if 200 \<le> status \<and> status < 400 then Success
      else if 400 \<le> status \<and> status < 500 \<and> status \<noteq> 429 then PermanentFailure
      else TransientFailure)"
| "spec_http_kind r = TransientFailure"

text \<open>
  Database-mutation action: exit code 0 is a success, any other exit code and a process
  that could not be run are transient failures.
\<close>

fun spec_process_kind :: "outcome \<Rightarrow> kind" where
  "spec_process_kind (Returns (CompletedProcess returncode out err)) =
     (if returncode = 0 then Success else TransientFailure)"
| "spec_process_kind r = TransientFailure"

text \<open>
  What the consumer told the broker about a delivery: an acknowledgement when a call of
  \<open>basic_ack\<close> for the delivery returned. The consumer has no negative acknowledgement.
\<close>

fun acknowledges :: "nat \<Rightarrow> event \<Rightarrow> bool" where
  "acknowledges tag (BasicAck t, Returns v) = (t = tag)"
| "acknowledges tag ev = False"

definition settled_as :: "nat \<Rightarrow> event list \<Rightarrow> ack_decision option" where
  "settled_as tag tr = (if list_ex (acknowledges tag) tr then Some Ack else None)"


section \<open>Sample worlds and messages\<close>

text \<open>
  A world where everything works: status 200, exit code 0, a reachable broker, a
  standard output that takes every text.
\<close>

definition world_ok :: world where
  "world_ok tr c =
     (case c of
        RequestsGet u \<Rightarrow> Returns (Response 200)
      | SubprocessRun a \<Rightarrow> Returns (CompletedProcess 0 [] [])
      | _ \<Rightarrow> Returns NoneVal)"

text \<open>A world where the web application cannot be reached.\<close>

definition world_http_down :: world where
  "world_http_down tr c =
     (case c of
        RequestsGet u \<Rightarrow> Raises ConnectionError
      | SubprocessRun a \<Rightarrow> Returns (CompletedProcess 0 [] [])
      | _ \<Rightarrow> Returns NoneVal)"

text \<open>
  A world where both downstream actions fail every time: the request times out and the
  Node script exits with code 1.
\<close>

definition world_down :: world where
  "world_down tr c =
     (case c of
        RequestsGet u \<Rightarrow> Raises Timeout
      | SubprocessRun a \<Rightarrow> Returns (CompletedProcess 1 [] (lit ''error''))
      | _ \<Rightarrow> Returns NoneVal)"

text \<open>
  A world where the first connection to the broker fails and every later one succeeds.
\<close>

definition world_flaky :: world where
  "world_flaky tr c =
     (case c of
        BlockingConnection h \<Rightarrow>
          (if filter is_connect (calls tr) = [] then Raises AMQPConnectionError
           else Returns NoneVal)
      | RequestsGet u \<Rightarrow> Returns (Response 200)
      | SubprocessRun a \<Rightarrow> Returns (CompletedProcess 0 [] [])
      | _ \<Rightarrow> Returns NoneVal)"

text \<open>
  A world that works but whose standard output is encoded in ASCII: a \<open>print\<close> of text
  with a code point beyond U+007F raises \<open>UnicodeEncodeError\<close>.
\<close>

fun ascii_fragment :: "fragment \<Rightarrow> bool" where
  "ascii_fragment (Text s) = list_all (\<lambda>c. c < 128) s"
| "ascii_fragment f = True"

definition world_ascii_stdout :: world where
  "world_ascii_stdout tr c =
     (case c of
        Print fs \<Rightarrow>
          (if list_all ascii_fragment fs then Returns NoneVal else Raises UnicodeEncodeError)
      | RequestsGet u \<Rightarrow> Returns (Response 200)
      | SubprocessRun a \<Rightarrow> Returns (CompletedProcess 0 [] [])
      | _ \<Rightarrow> Returns NoneVal)"

text \<open>
  The bytes of \<open>OP7,S500\<close> and of \<open>OP7\<close>, and the bytes and the string of the
  payload whose area is the one code point U+00E9 and whose station is \<open>S500\<close>.
\<close>

definition body_OP7_S500 :: bytes where
  "body_OP7_S500 = [0x4F, 0x50, 0x37, 0x2C, 0x53, 0x35, 0x30, 0x30]"

definition body_OP7 :: bytes where
  "body_OP7 = [0x4F, 0x50, 0x37]"

definition body_e_S500 :: bytes where
  "body_e_S500 = [0xC3, 0xA9, 0x2C, 0x53, 0x35, 0x30, 0x30]"

definition e_S500 :: pystr where
  "e_S500 = 233 # lit '',S500''"


section \<open>Properties of splitting and trimming\<close>

lemma split_not_Nil: "split sep s \<noteq> []"
  by (induction s) (auto split: list.splits)

lemma length_split: "length (split sep s) = Suc (count_list s sep)"
  by (induction s) (auto split: list.splits simp: split_not_Nil)

lemma split_no_sep: "sep \<notin> set a \<Longrightarrow> split sep a = [a]"
  by (induction a) auto

lemma split_append_sep: "sep \<notin> set a \<Longrightarrow> split sep (a @ sep # b) = a # split sep b"
  by (induction a) auto

lemma split_pieces_no_sep: "p \<in> set (split sep s) \<Longrightarrow> sep \<notin> set p"
  by (induction s arbitrary: p) (auto split: if_splits list.splits)

lemma split_two_pieces:
  "split sep s = [a, b] \<Longrightarrow> s = a @ sep # b"
proof (induction s arbitrary: a)
  case Nil
  then show ?case by simp
next
  case (Cons c cs)
  show ?case
  proof (cases "c = sep")
    case True
    with Cons.prems have a: "a = []" and r: "split sep cs = [b]" by simp_all
    from r have "count_list cs sep = 0"
      using length_split [of sep cs] by simp
    then have "sep \<notin> set cs" by (simp add: count_list_0_iff)
    then have "split sep cs = [cs]" by (rule split_no_sep)
    with r have "cs = b" by simp
    with a True show ?thesis by simp
  next
    case False
    with Cons.prems obtain p where p: "split sep cs = [p, b]" and a: "a = c # p"
      by (auto split: list.splits)
    from Cons.IH [OF p] a show ?thesis by simp
  qed
qed

lemma unpack_pair_Inl_iff: "unpack_pair ps = Inl e \<longleftrightarrow> e = ValueError \<and> length ps \<noteq> 2"
  by (cases ps rule: unpack_pair.cases) auto

lemma strip_unchanged:
  assumes "s \<noteq> []" and "\<not> isspace (hd s)" and "\<not> isspace (last s)"
  shows "strip s = s"
proof -
  from assms(1,2) have "dropWhile isspace s = s"
    by (cases s) simp_all
  moreover from assms(1,3) have "dropWhile isspace (rev s) = rev s"
    by (cases "rev s") (simp_all add: hd_rev [symmetric])
  ultimately show ?thesis by (simp add: strip_def)
qed


section \<open>Decoding\<close>

lemma decode_event_one_comma:
  assumes "count_list (strip s) comma = 1"
  shows "\<exists>a b. decode_event s = Inr (a, b) \<and> strip s = a @ comma # b
           \<and> comma \<notin> set a \<and> comma \<notin> set b"
proof -
  from assms have "length (split comma (strip s)) = 2"
    by (simp add: length_split)
  then obtain a b where ab: "split comma (strip s) = [a, b]"
    by (auto simp: length_Suc_conv numeral_2_eq_2)
  then have "strip s = a @ comma # b" by (rule split_two_pieces)
  moreover from ab have "comma \<notin> set a" "comma \<notin> set b"
    using split_pieces_no_sep [of a comma "strip s"] split_pieces_no_sep [of b comma "strip s"]
    by simp_all
  moreover from ab have "decode_event s = Inr (a, b)"
    by (simp add: decode_event_def)
  ultimately show ?thesis by blast
qed

lemma decode_event_other:
  assumes "count_list (strip s) comma \<noteq> 1"
  shows "decode_event s = Inl ValueError"
proof -
  from assms have "length (split comma (strip s)) \<noteq> 2"
    by (simp add: length_split)
  then show ?thesis
    by (simp add: decode_event_def unpack_pair_Inl_iff)
qed

lemma decode_event_wire:
  assumes "comma \<notin> set a" and "comma \<notin> set b" and "strip s = wire a b"
  shows "decode_event s = Inr (a, b)"
  using assms by (simp add: decode_event_def wire_def split_append_sep split_no_sep)


section \<open>The message codec\<close>

text \<open>
  Claim C6, as the code has it. Decoding trims the surrounding whitespace and cuts at
  every delimiter. For every string it gives one of two results: when the trimmed string
  holds exactly one delimiter, the two pieces before and after it, neither holding a
  delimiter and either possibly empty; otherwise \<open>ValueError\<close>, which \<open>process_message\<close>
  catches.
\<close>

theorem decode_splits_at_every_delimiter:
  "(count_list (strip s) comma = 1 \<longrightarrow>
      (\<exists>a b. decode_event s = Inr (a, b) \<and> strip s = wire a b
         \<and> comma \<notin> set a \<and> comma \<notin> set b))
   \<and> (count_list (strip s) comma \<noteq> 1 \<longrightarrow> decode_event s = Inl ValueError)"
  using decode_event_one_comma [of s] decode_event_other [of s]
  by (auto simp: wire_def)

text \<open>
  One string of each kind: \<open>" OP7,S500 "\<close> decodes to \<open>OP7\<close> and \<open>S500\<close>, and
  \<open>"OP7,S500,X"\<close>, with a second delimiter, is refused.
\<close>

theorem decode_splits_at_every_delimiter_witness:
  "count_list (strip (lit '' OP7,S500 '')) comma = 1
   \<and> decode_event (lit '' OP7,S500 '') = Inr (lit ''OP7'', lit ''S500'')
   \<and> count_list (strip (lit ''OP7,S500,X'')) comma \<noteq> 1
   \<and> decode_event (lit ''OP7,S500,X'') = Inl ValueError"
proof -
  have one: "count_list (strip (lit '' OP7,S500 '')) comma = 1"
    by (simp add: lit_def strip_def isspace_def comma_def)
  have str: "strip (lit '' OP7,S500 '') = wire (lit ''OP7'') (lit ''S500'')"
    by (simp add: lit_def strip_def isspace_def comma_def wire_def)
  have more: "count_list (strip (lit ''OP7,S500,X'')) comma \<noteq> 1"
    by (simp add: lit_def strip_def isspace_def comma_def)
  from decode_splits_at_every_delimiter [of "lit '' OP7,S500 ''"] one
  obtain a b where "decode_event (lit '' OP7,S500 '') = Inr (a, b)"
    and "strip (lit '' OP7,S500 '') = wire a b" and "comma \<notin> set a"
    by blast
  with str have "decode_event (lit '' OP7,S500 '') = Inr (lit ''OP7'', lit ''S500'')"
    by (auto simp: wire_def lit_def comma_def append_eq_Cons_conv Cons_eq_append_conv)
  moreover from decode_splits_at_every_delimiter [of "lit ''OP7,S500,X''"] more
  have "decode_event (lit ''OP7,S500,X'') = Inl ValueError" by blast
  ultimately show ?thesis using one more by blast
qed

text \<open>
  Claim C6 as stated asks for two non-empty fields. A payload that ends with the
  delimiter decodes to an event whose station is empty.
\<close>

theorem decode_keeps_empty_field_counterexample:
  "decode_event (lit ''OP7,'') = Inr (lit ''OP7'', [])"
  by (simp add: decode_event_def lit_def strip_def isspace_def comma_def)

text \<open>
  Claim C7, as the code has it. For all \<open>A\<close> and \<open>B\<close> that are non-empty, hold no
  delimiter, and are such that \<open>A\<close> does not begin and \<open>B\<close> does not end with whitespace,
  decoding the wire string \<open>A,B\<close> gives \<open>A\<close> and \<open>B\<close> back.
\<close>

theorem round_trip_without_surrounding_whitespace:
  assumes "a \<noteq> []" and "b \<noteq> []" and "comma \<notin> set a" and "comma \<notin> set b"
    and "\<not> isspace (hd a)" and "\<not> isspace (last b)"
  shows "decode_event (wire a b) = Inr (a, b)"
proof -
  from assms(1,2,5,6) have "strip (wire a b) = wire a b"
    by (intro strip_unchanged) (simp_all add: wire_def)
  with assms(3,4) show ?thesis by (rule decode_event_wire)
qed

theorem round_trip_without_surrounding_whitespace_witness:
  "lit ''OP7'' \<noteq> [] \<and> lit ''S500'' \<noteq> [] \<and> comma \<notin> set (lit ''OP7'') \<and> comma \<notin> set (lit ''S500'')
   \<and> \<not> isspace (hd (lit ''OP7'')) \<and> \<not> isspace (last (lit ''S500''))
   \<and> decode_event (wire (lit ''OP7'') (lit ''S500'')) = Inr (lit ''OP7'', lit ''S500'')"
  using round_trip_without_surrounding_whitespace [of "lit ''OP7''" "lit ''S500''"]
  by (simp add: lit_def comma_def isspace_def)

text \<open>
  Claim C7 as stated allows \<open>A\<close> to begin with whitespace. Trimming removes it, so
  \<open>" OP7,S500"\<close> decodes to the area \<open>OP7\<close>, not \<open>" OP7"\<close>.
\<close>

theorem round_trip_leading_space_counterexample:
  "lit '' OP7'' \<noteq> [] \<and> lit ''S500'' \<noteq> []
   \<and> comma \<notin> set (lit '' OP7'') \<and> comma \<notin> set (lit ''S500'')
   \<and> decode_event (wire (lit '' OP7'') (lit ''S500'')) = Inr (lit ''OP7'', lit ''S500'')
   \<and> decode_event (wire (lit '' OP7'') (lit ''S500'')) \<noteq> Inr (lit '' OP7'', lit ''S500'')"
  by (simp add: decode_event_def wire_def lit_def strip_def isspace_def comma_def)


section \<open>The shape of the traces\<close>

lemma calls_append [simp]: "calls (xs @ ys) = calls xs @ calls ys"
  by (simp add: calls_def)

lemma calls_Nil [simp]: "calls [] = []"
  by (simp add: calls_def)

lemma calls_Cons [simp]: "calls ((c, r) # tr) = c # calls tr"
  by (simp add: calls_def)

lemma effects_append [simp]: "effects (xs @ ys) = effects xs @ effects ys"
  by (simp add: effects_def)

lemma effects_Nil [simp]: "effects [] = []"
  by (simp add: effects_def)

lemma effects_Cons [simp]:
  "effects ((c, r) # tr) = (if is_print c then effects tr else c # effects tr)"
  by (simp add: effects_def)

lemma py_print_eq:
  "py_print w fs tr =
     ((case w tr (Print fs) of Raises e \<Rightarrow> Inl e | Returns v \<Rightarrow> Inr ()),
      tr @ [(Print fs, w tr (Print fs))])"
  by (simp add: py_print_def and_then_def invoke_def returns_def split: outcome.splits)

lemma call_flask_shape:
  "\<exists>evs. snd (call_flask w url tr) = tr @ evs \<and> effects evs = [RequestsGet url]
     \<and> ((\<forall>tr x e. w tr (Print x) \<noteq> Raises e) \<longrightarrow> fst (call_flask w url tr) = Inr ())"
  by (auto simp: call_flask_def try_except_def and_then_def invoke_def evaluate_def py_print_eq
      split: outcome.splits sum.splits prod.splits)

lemma call_node_shape:
  "\<exists>evs. snd (call_node w (strip s) tr) = tr @ evs \<and> prefix (effects evs) (node_calls s)
     \<and> ((\<forall>tr x e. w tr (Print x) \<noteq> Raises e) \<longrightarrow>
          fst (call_node w (strip s) tr) = Inr () \<and> effects evs = node_calls s)"
  by (auto simp: call_node_def node_calls_def decode_event_def try_except_def and_then_def
      invoke_def evaluate_def py_print_eq returns_def
      split: outcome.splits sum.splits prod.splits if_splits)

lemma process_message_shape:
  "\<exists>evs. snd (process_message w s tr) = tr @ evs \<and> prefix (effects evs) (action_calls s)
     \<and> (fst (process_message w s tr) = Inr () \<longrightarrow> effects evs \<noteq> [])
     \<and> ((\<forall>tr x e. w tr (Print x) \<noteq> Raises e) \<longrightarrow>
          fst (process_message w s tr) = Inr () \<and> effects evs = action_calls s)"
proof -
  define p1 where "p1 = Print [Text (lit ''Received message: ''), Text s]"
  define url where "url = FLASK_URL_BASE @ strip s"
  define p2 where "p2 = Print [Text (lit ''Calling Flask app: ''), Text url]"
  define tr1 where "tr1 = tr @ [(p1, w tr p1)]"
  define tr2 where "tr2 = tr1 @ [(p2, w tr1 p2)]"
  show ?thesis
  proof (cases "w tr p1")
    case (Raises e)
    then have "process_message w s tr = (Inl e, tr1)"
      by (simp add: process_message_def and_then_def py_print_eq p1_def tr1_def)
    moreover from Raises have "\<not> (\<forall>tr x e. w tr (Print x) \<noteq> Raises e)"
      unfolding p1_def by blast
    ultimately show ?thesis
      by (auto simp: tr1_def p1_def)
  next
    case r1: (Returns v1)
    show ?thesis
    proof (cases "w tr1 p2")
      case (Raises e)
      with r1 have "process_message w s tr = (Inl e, tr2)"
        by (simp add: process_message_def and_then_def py_print_eq Let_def p1_def p2_def
            url_def tr1_def tr2_def)
      moreover from Raises have "\<not> (\<forall>tr x e. w tr (Print x) \<noteq> Raises e)"
        unfolding p2_def by blast
      ultimately show ?thesis
        by (auto simp: tr2_def tr1_def p1_def p2_def)
    next
      case r2: (Returns v2)
      obtain ef where ef: "snd (call_flask w url tr2) = tr2 @ ef"
        and ef_eff: "effects ef = [RequestsGet url]"
        and ef_ok: "(\<forall>tr x e. w tr (Print x) \<noteq> Raises e) \<longrightarrow> fst (call_flask w url tr2) = Inr ()"
        using call_flask_shape [of w url tr2] by blast
      show ?thesis
      proof (cases "fst (call_flask w url tr2)")
        case (Inl e)
        with ef have "call_flask w url tr2 = (Inl e, tr2 @ ef)"
          by (simp add: prod_eq_iff)
        with r1 r2 have "process_message w s tr = (Inl e, tr2 @ ef)"
          by (simp add: process_message_def and_then_def py_print_eq Let_def p1_def p2_def
              url_def tr1_def tr2_def)
        moreover from Inl ef_ok have "\<not> (\<forall>tr x e. w tr (Print x) \<noteq> Raises e)"
          by auto
        ultimately show ?thesis
          using ef_eff
          by (auto simp: tr2_def tr1_def p1_def p2_def action_calls_def url_def
              intro!: exI [of _ "[(p1, w tr p1), (p2, w tr1 p2)] @ ef", unfolded p1_def p2_def tr1_def])
      next
        case (Inr u)
        with ef have cf: "call_flask w url tr2 = (Inr (), tr2 @ ef)"
          by (simp add: prod_eq_iff)
        obtain en where en: "snd (call_node w (strip s) (tr2 @ ef)) = (tr2 @ ef) @ en"
          and en_pre: "prefix (effects en) (node_calls s)"
          and en_ok: "(\<forall>tr x e. w tr (Print x) \<noteq> Raises e) \<longrightarrow>
              fst (call_node w (strip s) (tr2 @ ef)) = Inr () \<and> effects en = node_calls s"
          using call_node_shape [of w s "tr2 @ ef"] by blast
        from r1 r2 cf have pm: "process_message w s tr = call_node w (strip s) (tr2 @ ef)"
          by (simp add: process_message_def and_then_def py_print_eq Let_def p1_def p2_def
              url_def tr1_def tr2_def)
        have "snd (process_message w s tr) = tr @ ([(p1, w tr p1), (p2, w tr1 p2)] @ ef @ en)"
          using pm en by (simp add: tr2_def tr1_def)
        moreover have "effects ([(p1, w tr p1), (p2, w tr1 p2)] @ ef @ en)
            = RequestsGet url # effects en"
          using ef_eff by (simp add: p1_def p2_def)
        ultimately show ?thesis
          using en_pre en_ok pm
          by (intro exI [of _ "[(p1, w tr p1), (p2, w tr1 p2)] @ ef @ en"])
            (simp add: action_calls_def url_def)
      qed
    qed
  qed
qed

lemma delivery_block_iff:
  "delivery_block (tag, body) cs \<longleftrightarrow>
     (case bytes_decode body of
        Inl e \<Rightarrow> cs = []
      | Inr s \<Rightarrow> (\<exists>pre. prefix pre (action_calls s)
                   \<and> (cs = pre \<or> (pre \<noteq> [] \<and> cs = pre @ [BasicAck tag]))))"
  by (auto simp: delivery_block_def list_ex_iff split: sum.splits)

lemma callback_undecodable:
  "bytes_decode body = Inl e \<Longrightarrow> callback w tag body tr = (Inl e, tr)"
  by (simp add: callback_def and_then_def evaluate_def)

lemma callback_shape:
  assumes "bytes_decode body = Inr s"
  shows "\<exists>evs. snd (callback w tag body tr) = tr @ evs \<and> delivery_block (tag, body) (effects evs)
     \<and> ((\<forall>tr x e. w tr (Print x) \<noteq> Raises e) \<longrightarrow>
          (\<exists>evs0 r. evs = evs0 @ [(BasicAck tag, r)]
             \<and> process_message w s tr = (Inr (), tr @ evs0)
             \<and> effects evs0 = action_calls s
             \<and> r = w (tr @ evs0) (BasicAck tag)
             \<and> fst (callback w tag body tr) = (case r of Raises e \<Rightarrow> Inl e | Returns v \<Rightarrow> Inr ())))"
proof -
  obtain evs0 where evs0: "snd (process_message w s tr) = tr @ evs0"
    and pre: "prefix (effects evs0) (action_calls s)"
    and ne: "fst (process_message w s tr) = Inr () \<longrightarrow> effects evs0 \<noteq> []"
    and ok: "(\<forall>tr x e. w tr (Print x) \<noteq> Raises e) \<longrightarrow>
          fst (process_message w s tr) = Inr () \<and> effects evs0 = action_calls s"
    using process_message_shape [of w s tr] by blast
  show ?thesis
  proof (cases "fst (process_message w s tr)")
    case (Inl e)
    with evs0 have "process_message w s tr = (Inl e, tr @ evs0)"
      by (simp add: prod_eq_iff)
    with assms have "callback w tag body tr = (Inl e, tr @ evs0)"
      by (simp add: callback_def and_then_def evaluate_def)
    moreover from Inl ok have "\<not> (\<forall>tr x e. w tr (Print x) \<noteq> Raises e)" by auto
    ultimately show ?thesis
      using pre assms by (auto simp: delivery_block_iff)
  next
    case (Inr u)
    with evs0 have pm: "process_message w s tr = (Inr (), tr @ evs0)"
      by (simp add: prod_eq_iff)
    define r where "r = w (tr @ evs0) (BasicAck tag)"
    from pm assms have cb: "callback w tag body tr =
        ((case r of Raises e \<Rightarrow> Inl e | Returns v \<Rightarrow> Inr ()), tr @ evs0 @ [(BasicAck tag, r)])"
      by (simp add: callback_def and_then_def evaluate_def invoke_def returns_def r_def
          split: outcome.splits)
    from Inr ne have "effects evs0 \<noteq> []" by simp
    with pre assms have "delivery_block (tag, body) (effects (evs0 @ [(BasicAck tag, r)]))"
      by (auto simp: delivery_block_iff)
    with cb pm ok r_def show ?thesis
      by (intro exI [of _ "evs0 @ [(BasicAck tag, r)]"]) auto
  qed
qed

lemma callback_block:
  "\<exists>evs. snd (callback w tag body tr) = tr @ evs \<and> delivery_block (tag, body) (effects evs)"
proof (cases "bytes_decode body")
  case (Inl e)
  then show ?thesis
    by (simp add: callback_undecodable delivery_block_iff)
next
  case (Inr s)
  from callback_shape [OF this, of w tag tr] show ?thesis by blast
qed

lemma callback_effects:
  assumes "bytes_decode body = Inr s" and "\<forall>tr x e. w tr (Print x) \<noteq> Raises e"
  shows "effects (snd (callback w tag body tr)) = effects tr @ delivery_calls (tag, body)"
  using callback_shape [OF assms(1), of w tag tr] assms
  by (auto simp: delivery_calls_def)



lemma start_consuming_all:
  assumes "\<forall>d\<in>set ds. \<not> isl (bytes_decode (snd d))"
    and "\<forall>tr x e. w tr (Print x) \<noteq> Raises e"
    and "\<forall>tr t e. w tr (BasicAck t) \<noteq> Raises e"
  shows "fst (start_consuming w ds tr) = Inr ()
       \<and> effects (snd (start_consuming w ds tr)) = effects tr @ concat (map delivery_calls ds)"
  using assms(1)
proof (induction ds arbitrary: tr)
  case Nil
  then show ?case by simp
next
  case (Cons d ds)
  obtain tag body where d: "d = (tag, body)" by (cases d)
  from Cons.prems d obtain s where s: "bytes_decode body = Inr s"
    by (cases "bytes_decode body") auto
  from callback_shape [OF s, of w tag tr] assms(2)
  obtain evs0 r where tr': "snd (callback w tag body tr) = tr @ evs0 @ [(BasicAck tag, r)]"
    and r: "r = w (tr @ evs0) (BasicAck tag)"
    and v: "fst (callback w tag body tr) = (case r of Raises e \<Rightarrow> Inl e | Returns v \<Rightarrow> Inr ())"
    by auto
  have "\<exists>x. r = Returns x"
  proof (cases r)
    case (Raises e)
    with r assms(3) show ?thesis by metis
  next
    case (Returns x)
    then show ?thesis by blast
  qed
  then obtain x where "r = Returns x" by blast
  with v tr' have "callback w tag body tr = (Inr (), tr @ evs0 @ [(BasicAck tag, r)])"
    by (simp add: prod_eq_iff)
  then have "start_consuming w (d # ds) tr = start_consuming w ds (tr @ evs0 @ [(BasicAck tag, r)])"
    by (simp add: d)
  moreover have "effects (tr @ evs0 @ [(BasicAck tag, r)]) = effects tr @ delivery_calls d"
    using callback_effects [OF s assms(2), of tag tr] tr' by (simp add: d)
  ultimately show ?case
    using Cons.IH [of "tr @ evs0 @ [(BasicAck tag, r)]"] Cons.prems by simp
qed








lemma send_to_rabbitmq_shape:
  "\<exists>evs. snd (send_to_rabbitmq w data tr) = tr @ evs
     \<and> prefix (calls evs) (publish_calls data)
     \<and> filter is_connect (calls evs) = [BlockingConnection RABBITMQ_HOST]
     \<and> (\<forall>c e. (c, Raises e) \<in> set evs \<longrightarrow> fst (send_to_rabbitmq w data tr) = Inl e)
     \<and> (\<forall>e. fst (send_to_rabbitmq w data tr) = Inl e \<longrightarrow> snd (last evs) = Raises e)
     \<and> (\<forall>ev\<in>set (butlast evs). \<not> raised ev)
     \<and> (fst (send_to_rabbitmq w data tr) = Inr () \<longrightarrow> calls evs = publish_calls data)"
  unfolding send_to_rabbitmq_def and_then_def invoke_def py_print_eq publish_calls_def
  by (auto split: outcome.splits)

lemma send_to_rabbitmq_all:
  assumes "\<forall>tr c e. w tr c \<noteq> Raises e"
  shows "fst (send_to_rabbitmq w data tr) = Inr ()
       \<and> calls (snd (send_to_rabbitmq w data tr)) = calls tr @ publish_calls data"
  using assms
  unfolding send_to_rabbitmq_def and_then_def invoke_def py_print_eq publish_calls_def
  by (auto split: outcome.splits)

lemma producer_main_all:
  assumes "\<forall>tr c e. w tr c \<noteq> Raises e"
  shows "fst (producer_main w qs tr) = Inr ()
       \<and> calls (snd (producer_main w qs tr)) =
           calls tr @ concat (map publish_calls (filter (\<lambda>q. q \<noteq> []) qs))"
proof (induction qs arbitrary: tr)
  case Nil
  then show ?case by simp
next
  case (Cons q qs)
  show ?case
  proof (cases "q = []")
    case True
    with Cons.IH [of tr] show ?thesis by simp
  next
    case False
    obtain tr' where s: "send_to_rabbitmq w q tr = (Inr (), tr')"
      and c: "calls tr' = calls tr @ publish_calls q"
      using send_to_rabbitmq_all [OF assms, of q tr]
      by (cases "send_to_rabbitmq w q tr") auto
    with False Cons.IH [of tr'] show ?thesis by simp
  qed
qed


section \<open>Acknowledgements in a trace\<close>

lemma acked_tags_append: "acked_tags (xs @ ys) = acked_tags xs @ acked_tags ys"
  by (induction xs rule: acked_tags.induct) simp_all

lemma acked_tags_no_ack: "\<forall>c\<in>set cs. \<not> is_ack c \<Longrightarrow> acked_tags cs = []"
  by (induction cs rule: acked_tags.induct) simp_all

lemma acked_tags_effects: "acked_tags (effects tr) = acked_tags (calls tr)"
proof (induction tr)
  case Nil
  then show ?case by simp
next
  case (Cons ev tr)
  obtain c r where "ev = (c, r)" by (cases ev)
  with Cons show ?case by (cases c) simp_all
qed

lemma filter_run_effects: "filter is_run (effects tr) = filter is_run (calls tr)"
proof (induction tr)
  case Nil
  then show ?case by simp
next
  case (Cons ev tr)
  obtain c r where "ev = (c, r)" by (cases ev)
  with Cons show ?case by (cases c) simp_all
qed

lemma action_calls_no_ack: "\<forall>c\<in>set (action_calls s). \<not> is_ack c"
  by (auto simp: action_calls_def node_calls_def split: sum.splits)

lemma prefix_action_calls_no_ack:
  "prefix pre (action_calls s) \<Longrightarrow> acked_tags pre = []"
  using action_calls_no_ack [of s] set_mono_prefix [of pre "action_calls s"]
  by (intro acked_tags_no_ack) blast

lemma acked_tags_action_calls: "acked_tags (action_calls s) = []"
  by (rule prefix_action_calls_no_ack [of _ s]) simp



lemma delivery_block_acks:
  assumes "delivery_block (tag, body) cs"
  shows "prefix (acked_tags cs) [tag]"
proof (cases "bytes_decode body")
  case (Inl e)
  with assms show ?thesis by (simp add: delivery_block_iff)
next
  case (Inr s)
  with assms obtain pre where "prefix pre (action_calls s)"
    and "cs = pre \<or> (pre \<noteq> [] \<and> cs = pre @ [BasicAck tag])"
    by (auto simp: delivery_block_iff)
  then show ?thesis
    using prefix_action_calls_no_ack [of pre s] by (auto simp: acked_tags_append)
qed


section \<open>Sample messages and worlds evaluated\<close>

lemma body_OP7_S500_decodes: "bytes_decode body_OP7_S500 = Inr (lit ''OP7,S500'')"
  by (simp add: bytes_decode_def body_OP7_S500_def lit_def push_def)

lemma body_OP7_decodes: "bytes_decode body_OP7 = Inr (lit ''OP7'')"
  by (simp add: bytes_decode_def body_OP7_def lit_def push_def)

lemma body_e_S500_decodes: "bytes_decode body_e_S500 = Inr e_S500"
  by (simp add: bytes_decode_def body_e_S500_def e_S500_def lit_def push_def cont_def)

lemma strip_OP7_S500: "strip (lit ''OP7,S500'') = wire (lit ''OP7'') (lit ''S500'')"
  by (simp add: lit_def strip_def isspace_def comma_def wire_def)

lemma strip_OP7: "strip (lit ''OP7'') = lit ''OP7''"
  by (simp add: lit_def strip_def isspace_def)

lemma strip_e_S500: "strip e_S500 = wire [233] (lit ''S500'')"
  by (simp add: e_S500_def lit_def strip_def isspace_def comma_def wire_def)

lemma decode_OP7_S500: "decode_event (lit ''OP7,S500'') = Inr (lit ''OP7'', lit ''S500'')"
  by (rule decode_event_wire [OF _ _ strip_OP7_S500]) (simp_all add: lit_def comma_def)

lemma decode_OP7: "decode_event (lit ''OP7'') = Inl ValueError"
  by (rule decode_event_other) (simp add: strip_OP7, simp add: lit_def comma_def)

lemma world_ok_prints: "\<forall>tr x e. world_ok tr (Print x) \<noteq> Raises e"
  by (simp add: world_ok_def)

lemma world_ok_acks: "\<forall>tr t e. world_ok tr (BasicAck t) \<noteq> Raises e"
  by (simp add: world_ok_def)

lemma world_ok_all: "\<forall>tr c e. world_ok tr c \<noteq> Raises e"
  by (simp add: world_ok_def split: call.splits)

lemma world_down_prints: "\<forall>tr x e. world_down tr (Print x) \<noteq> Raises e"
  by (simp add: world_down_def)

lemma world_down_acks: "\<forall>tr t e. world_down tr (BasicAck t) \<noteq> Raises e"
  by (simp add: world_down_def)

lemma url_OP7_S500:
  "FLASK_URL_BASE @ strip (lit ''OP7,S500'') = lit ''http://localhost:5000/?query=OP7,S500''"
  by (simp add: strip_OP7_S500) (simp add: FLASK_URL_BASE_def lit_def wire_def comma_def)

lemma url_OP7: "FLASK_URL_BASE @ strip (lit ''OP7'') = lit ''http://localhost:5000/?query=OP7''"
  by (simp add: strip_OP7) (simp add: FLASK_URL_BASE_def lit_def)

lemma unpack_OP7_S500:
  "unpack_pair (split comma (strip (lit ''OP7,S500''))) = Inr (lit ''OP7'', lit ''S500'')"
  using decode_OP7_S500 by (simp add: decode_event_def)

lemma unpack_OP7: "unpack_pair (split comma (strip (lit ''OP7''))) = Inl ValueError"
  using decode_OP7 by (simp add: decode_event_def)

lemma cmd_OP7:
  "node_cmd (lit ''OP7'') =
     [lit ''node'', lit ''/path/to/S500.js'', lit ''--add'', lit ''--db'', lit ''OP7'']"
  by (simp add: node_cmd_def NODE_SCRIPT_PATH_def)

lemmas run_defs =
  callback_def process_message_def call_flask_def call_node_def and_then_def evaluate_def
  try_except_def invoke_def returns_def py_print_eq Let_def effect_events_def


section \<open>One delivery\<close>

text \<open>
  Claim C9, as the code has it. For every well-formed event (area and station non-empty
  and free of the delimiter), \<open>process_message\<close> runs the external process at most once,
  and only with the argument list \<open>node <script> --add --db <area>\<close>: the area is the
  only field of the event in the command, the station is not passed. It runs it exactly
  once provided no \<open>print\<close> raises.
\<close>

theorem node_script_gets_area_only:
  assumes "a \<noteq> []" and "b \<noteq> []" and "comma \<notin> set a" and "comma \<notin> set b"
    and "strip s = wire a b"
  shows "\<exists>evs. snd (process_message w s tr) = tr @ evs
           \<and> prefix (filter is_run (calls evs))
               [SubprocessRun [lit ''node'', NODE_SCRIPT_PATH, lit ''--add'', lit ''--db'', a]]
           \<and> ((\<forall>tr x e. w tr (Print x) \<noteq> Raises e) \<longrightarrow>
                filter is_run (calls evs) =
                  [SubprocessRun [lit ''node'', NODE_SCRIPT_PATH, lit ''--add'', lit ''--db'', a]])"
proof -
  from assms(3-5) have "decode_event s = Inr (a, b)" by (rule decode_event_wire)
  then have runs: "filter is_run (action_calls s) = [SubprocessRun (node_cmd a)]"
    by (simp add: action_calls_def node_calls_def)
  obtain evs where evs: "snd (process_message w s tr) = tr @ evs"
    and pre: "prefix (effects evs) (action_calls s)"
    and ok: "(\<forall>tr x e. w tr (Print x) \<noteq> Raises e) \<longrightarrow> effects evs = action_calls s"
    using process_message_shape [of w s tr] by blast
  have fr: "filter is_run (calls evs) = filter is_run (effects evs)"
    by (simp add: filter_run_effects)
  from pre have "prefix (filter is_run (effects evs)) (filter is_run (action_calls s))"
    by (rule filter_mono_prefix)
  then have one: "prefix (filter is_run (calls evs)) [SubprocessRun (node_cmd a)]"
    by (simp only: fr runs)
  from ok have all: "(\<forall>tr x e. w tr (Print x) \<noteq> Raises e) \<longrightarrow>
      filter is_run (calls evs) = [SubprocessRun (node_cmd a)]"
    by (simp only: fr) (simp add: runs)
  from evs one all show ?thesis
    unfolding node_cmd_def by blast
qed

theorem node_script_gets_area_only_witness:
  "lit ''OP7'' \<noteq> [] \<and> lit ''S500'' \<noteq> [] \<and> comma \<notin> set (lit ''OP7'') \<and> comma \<notin> set (lit ''S500'')
   \<and> strip (lit ''OP7,S500'') = wire (lit ''OP7'') (lit ''S500'')
   \<and> filter is_run (calls (snd (process_message world_ok (lit ''OP7,S500'') []))) =
       [SubprocessRun [lit ''node'', NODE_SCRIPT_PATH, lit ''--add'', lit ''--db'', lit ''OP7'']]"
proof -
  have h: "lit ''OP7'' \<noteq> []" "lit ''S500'' \<noteq> []" "comma \<notin> set (lit ''OP7'')"
    "comma \<notin> set (lit ''S500'')"
    by (simp_all add: lit_def comma_def)
  from node_script_gets_area_only [OF h strip_OP7_S500, of world_ok "[]"] world_ok_prints
    h strip_OP7_S500
  show ?thesis by auto
qed

text \<open>
  Claim C9 as stated has the process invoked for every well-formed event. On a standard
  output that cannot encode U+00E9, the first \<open>print\<close> of \<open>process_message\<close>, which is
  outside both \<open>try\<close> statements, raises for the well-formed payload with area U+00E9 and
  station \<open>S500\<close>, and no process is run.
\<close>

theorem print_failure_skips_node_script_counterexample:
  "strip e_S500 = wire [233] (lit ''S500'')
   \<and> comma \<notin> set [233] \<and> comma \<notin> set (lit ''S500'')
   \<and> process_message world_ascii_stdout e_S500 [] =
       (Inl UnicodeEncodeError,
        [(Print [Text (lit ''Received message: ''), Text e_S500], Raises UnicodeEncodeError)])"
  by (simp add: strip_e_S500)
    (simp add: process_message_def and_then_def py_print_eq world_ascii_stdout_def e_S500_def
      lit_def comma_def)

text \<open>
  Claim C10, as the code has it. For every delivery whose body decodes as UTF-8 the
  callback calls \<open>basic_ack\<close> at most once. Provided no \<open>print\<close> raises,
  \<open>process_message\<close> returns without an exception whatever the HTTP call and the Node
  script return or raise, and the callback then calls \<open>basic_ack\<close> for the delivery,
  exactly once, as the last thing it does.
\<close>

theorem callback_acks_exactly_once:
  assumes "bytes_decode body = Inr s"
  shows "(\<exists>evs. snd (callback w tag body tr) = tr @ evs \<and> prefix (acked_tags (calls evs)) [tag])
       \<and> ((\<forall>tr x e. w tr (Print x) \<noteq> Raises e) \<longrightarrow>
            fst (process_message w s tr) = Inr ()
            \<and> (\<exists>r. snd (callback w tag body tr) = snd (process_message w s tr) @ [(BasicAck tag, r)])
            \<and> acked_tags (calls (snd (callback w tag body tr))) = acked_tags (calls tr) @ [tag])"
proof (intro conjI impI)
  obtain evs where evs: "snd (callback w tag body tr) = tr @ evs"
    and blk: "delivery_block (tag, body) (effects evs)"
    using callback_block by blast
  from blk have "prefix (acked_tags (calls evs)) [tag]"
    using delivery_block_acks [of tag body "effects evs"] by (simp add: acked_tags_effects)
  with evs show "\<exists>evs. snd (callback w tag body tr) = tr @ evs \<and> prefix (acked_tags (calls evs)) [tag]"
    by blast
next
  assume ok: "\<forall>tr x e. w tr (Print x) \<noteq> Raises e"
  from callback_shape [OF assms, of w tag tr] ok
  obtain evs0 r where cb: "snd (callback w tag body tr) = tr @ evs0 @ [(BasicAck tag, r)]"
    and pm: "process_message w s tr = (Inr (), tr @ evs0)"
    and eff: "effects evs0 = action_calls s"
    by auto
  from pm show "fst (process_message w s tr) = Inr ()" by simp
  from cb pm show "\<exists>r. snd (callback w tag body tr) = snd (process_message w s tr) @ [(BasicAck tag, r)]"
    by simp
  from eff have "acked_tags (calls evs0) = []"
    using acked_tags_action_calls [of s] acked_tags_effects [of evs0] by simp
  with cb show "acked_tags (calls (snd (callback w tag body tr))) = acked_tags (calls tr) @ [tag]"
    by (simp add: acked_tags_append)
qed

text \<open>
  With the request timing out and the Node script failing, delivery 7 is acknowledged
  once.
\<close>

theorem callback_acks_exactly_once_witness:
  "bytes_decode body_OP7_S500 = Inr (lit ''OP7,S500'')
   \<and> fst (process_message world_down (lit ''OP7,S500'') []) = Inr ()
   \<and> acked_tags (calls (snd (callback world_down 7 body_OP7_S500 []))) = [7]"
  using callback_acks_exactly_once [OF body_OP7_S500_decodes, of world_down 7 "[]"]
    world_down_prints
  by (simp add: body_OP7_S500_decodes)

text \<open>
  Claim C10 as stated has every decodable delivery acknowledged. On a standard output
  that cannot encode U+00E9 the first \<open>print\<close> raises for the body \<open>C3 A9 2C 53 35 30 30\<close>;
  the exception leaves \<open>process_message\<close> and the callback, and \<open>basic_ack\<close> is not
  called.
\<close>

theorem print_failure_prevents_ack_counterexample:
  "bytes_decode body_e_S500 = Inr e_S500
   \<and> callback world_ascii_stdout 1 body_e_S500 [] =
       (Inl UnicodeEncodeError,
        [(Print [Text (lit ''Received message: ''), Text e_S500], Raises UnicodeEncodeError)])"
  by (simp add: body_e_S500_decodes callback_def and_then_def evaluate_def)
    (simp add: process_message_def and_then_def py_print_eq world_ascii_stdout_def e_S500_def
      lit_def)

text \<open>
  Claim C1, as the code has it. Provided no \<open>print\<close> and no \<open>basic_ack\<close> raises, for
  every scan event the consumer acknowledges the delivery whatever the HTTP notification
  action and the process-invocation action report. It computes no combined result; of
  the table, only the row (Success, Success) is matched, every other row is acknowledged
  as well.
\<close>

theorem callback_acks_whatever_actions_report:
  assumes "bytes_decode body = Inr s"
    and "\<forall>tr x e. w tr (Print x) \<noteq> Raises e"
    and "\<forall>tr t e. w tr (BasicAck t) \<noteq> Raises e"
  shows "\<exists>evs. snd (callback w tag body tr) = tr @ evs \<and> settled_as tag evs = Some Ack"
proof -
  from callback_shape [OF assms(1), of w tag tr] assms(2)
  obtain evs0 r where cb: "snd (callback w tag body tr) = tr @ evs0 @ [(BasicAck tag, r)]"
    and r: "r = w (tr @ evs0) (BasicAck tag)"
    by auto
  have "\<exists>x. r = Returns x"
  proof (cases r)
    case (Raises e)
    with r assms(3) show ?thesis by metis
  next
    case (Returns x)
    then show ?thesis by blast
  qed
  then obtain x where "r = Returns x" by blast
  then have "settled_as tag (evs0 @ [(BasicAck tag, r)]) = Some Ack"
    by (simp add: settled_as_def)
  with cb show ?thesis by blast
qed

text \<open>
  With the request timing out and the Node script exiting with 1, the delivery is
  acknowledged.
\<close>

theorem callback_acks_whatever_actions_report_witness:
  "bytes_decode body_OP7_S500 = Inr (lit ''OP7,S500'')
   \<and> settled_as 1 (snd (callback world_down 1 body_OP7_S500 [])) = Some Ack"
  using callback_acks_whatever_actions_report
    [OF body_OP7_S500_decodes world_down_prints world_down_acks, of 1 "[]"]
  by (auto simp: body_OP7_S500_decodes)

text \<open>
  Claim C1 as stated asks for a retry when either action fails transiently. With the web
  application unreachable and the Node script exiting with 0, the combined result of the
  specification is a transient failure, to be requeued, and the consumer acknowledges.
\<close>

theorem transient_http_failure_is_acked_counterexample:
  "fst (callback world_http_down 1 body_OP7_S500 []) = Inr ()
   \<and> effect_events (snd (callback world_http_down 1 body_OP7_S500 [])) =
     [(RequestsGet (lit ''http://localhost:5000/?query=OP7,S500''), Raises ConnectionError),
      (SubprocessRun [lit ''node'', lit ''/path/to/S500.js'', lit ''--add'', lit ''--db'', lit ''OP7''],
       Returns (CompletedProcess 0 [] [])),
      (BasicAck 1, Returns NoneVal)]
   \<and> spec_combine (spec_http_kind (Raises ConnectionError))
        (spec_process_kind (Returns (CompletedProcess 0 [] []))) = TransientFailure
   \<and> spec_ack_decision TransientFailure = Nack True
   \<and> settled_as 1 (snd (callback world_http_down 1 body_OP7_S500 [])) = Some Ack"
  by (simp add: run_defs body_OP7_S500_decodes url_OP7_S500 unpack_OP7_S500 cmd_OP7
      world_http_down_def settled_as_def)

text \<open>
  Claim C2, as the code has it. Provided no \<open>print\<close> raises: for every delivery whose
  body decodes and whose trimmed payload does not hold exactly one delimiter (a missing
  or an extra delimiter), unpacking raises \<open>ValueError\<close>, which is caught: no process is
  run, but the HTTP request has been made before and the delivery is acknowledged. A
  payload with exactly one delimiter is processed in full, the HTTP request and the Node
  script, also when a field is empty.
\<close>

theorem malformed_payload_is_requested_and_acked:
  assumes "bytes_decode body = Inr s"
    and "\<forall>tr x e. w tr (Print x) \<noteq> Raises e"
  shows "(count_list (strip s) comma \<noteq> 1 \<longrightarrow>
            decode_event s = Inl ValueError
            \<and> effects (snd (callback w tag body tr)) =
                effects tr @ [RequestsGet (FLASK_URL_BASE @ strip s), BasicAck tag])
       \<and> (count_list (strip s) comma = 1 \<longrightarrow>
            (\<exists>a b. decode_event s = Inr (a, b)
               \<and> effects (snd (callback w tag body tr)) =
                   effects tr @ [RequestsGet (FLASK_URL_BASE @ strip s),
                                 SubprocessRun (node_cmd a), BasicAck tag]))"
proof (intro conjI impI)
  assume "count_list (strip s) comma \<noteq> 1"
  then show "decode_event s = Inl ValueError" by (rule decode_event_other)
  then show "effects (snd (callback w tag body tr)) =
      effects tr @ [RequestsGet (FLASK_URL_BASE @ strip s), BasicAck tag]"
    using assms
    by (simp add: callback_effects delivery_calls_def action_calls_def node_calls_def)
next
  assume "count_list (strip s) comma = 1"
  then obtain a b where "decode_event s = Inr (a, b)"
    using decode_event_one_comma by blast
  with assms show "\<exists>a b. decode_event s = Inr (a, b)
       \<and> effects (snd (callback w tag body tr)) =
           effects tr @ [RequestsGet (FLASK_URL_BASE @ strip s),
                         SubprocessRun (node_cmd a), BasicAck tag]"
    by (simp add: callback_effects delivery_calls_def action_calls_def node_calls_def)
qed

theorem malformed_payload_is_requested_and_acked_witness:
  "bytes_decode body_OP7 = Inr (lit ''OP7'')
   \<and> count_list (strip (lit ''OP7'')) comma \<noteq> 1
   \<and> decode_event (lit ''OP7'') = Inl ValueError
   \<and> effects (snd (callback world_ok 1 body_OP7 [])) =
       [RequestsGet (FLASK_URL_BASE @ lit ''OP7''), BasicAck 1]
   \<and> bytes_decode body_OP7_S500 = Inr (lit ''OP7,S500'')
   \<and> count_list (strip (lit ''OP7,S500'')) comma = 1
   \<and> effects (snd (callback world_ok 2 body_OP7_S500 [])) =
       [RequestsGet (FLASK_URL_BASE @ strip (lit ''OP7,S500'')),
        SubprocessRun (node_cmd (lit ''OP7'')), BasicAck 2]"
proof -
  have c: "count_list (strip (lit ''OP7'')) comma \<noteq> 1"
    by (simp add: strip_OP7) (simp add: lit_def comma_def)
  have c': "count_list (strip (lit ''OP7,S500'')) comma = 1"
    by (simp add: strip_OP7_S500) (simp add: lit_def comma_def wire_def)
  from malformed_payload_is_requested_and_acked
    [OF body_OP7_decodes world_ok_prints, of 1 "[]"] c
  have one: "effects (snd (callback world_ok 1 body_OP7 [])) =
       [RequestsGet (FLASK_URL_BASE @ lit ''OP7''), BasicAck 1]"
    by (simp add: strip_OP7)
  from malformed_payload_is_requested_and_acked
    [OF body_OP7_S500_decodes world_ok_prints, of 2 "[]"] c'
  have two: "effects (snd (callback world_ok 2 body_OP7_S500 [])) =
       [RequestsGet (FLASK_URL_BASE @ strip (lit ''OP7,S500'')),
        SubprocessRun (node_cmd (lit ''OP7'')), BasicAck 2]"
    by (simp add: decode_OP7_S500)
  from one two c c' show ?thesis
    by (simp add: body_OP7_decodes body_OP7_S500_decodes decode_OP7)
qed

text \<open>
  Claim C2 as stated asks that a malformed payload reaches neither action. For \<open>OP7\<close>,
  without delimiter, the request \<open>?query=OP7\<close> is made and the delivery acknowledged.
\<close>

theorem missing_delimiter_counterexample:
  "decode_event (lit ''OP7'') = Inl ValueError
   \<and> effect_events (snd (callback world_ok 1 body_OP7 [])) =
       [(RequestsGet (lit ''http://localhost:5000/?query=OP7''), Returns (Response 200)),
        (BasicAck 1, Returns NoneVal)]"
  by (simp add: decode_OP7 run_defs body_OP7_decodes url_OP7 unpack_OP7 world_ok_def)


section \<open>Several deliveries\<close>

text \<open>
  Claim C3, as the code has it. Provided no \<open>print\<close> and no \<open>basic_ack\<close> raises, for
  every well-formed event delivered twice the consumer makes the HTTP request and runs
  the Node script once for each delivery, two of each in all, and acknowledges each
  delivery after its own two actions. There is no idempotency guard.
\<close>

theorem second_delivery_repeats_both_actions:
  assumes "bytes_decode body = Inr s" and "decode_event s = Inr (a, b)"
    and "\<forall>tr x e. w tr (Print x) \<noteq> Raises e"
    and "\<forall>tr t e. w tr (BasicAck t) \<noteq> Raises e"
  shows "effects (snd (start_consuming w [(t1, body), (t2, body)] [])) =
           [RequestsGet (FLASK_URL_BASE @ strip s), SubprocessRun (node_cmd a), BasicAck t1,
            RequestsGet (FLASK_URL_BASE @ strip s), SubprocessRun (node_cmd a), BasicAck t2]"
proof -
  have "\<forall>d\<in>set [(t1, body), (t2, body)]. \<not> isl (bytes_decode (snd d))"
    using assms(1) by simp
  from start_consuming_all [OF this assms(3,4), of "[]"] assms(1,2) show ?thesis
    by (simp add: delivery_calls_def action_calls_def node_calls_def)
qed

theorem second_delivery_repeats_both_actions_witness:
  "bytes_decode body_OP7_S500 = Inr (lit ''OP7,S500'')
   \<and> decode_event (lit ''OP7,S500'') = Inr (lit ''OP7'', lit ''S500'')
   \<and> effects (snd (start_consuming world_ok [(1, body_OP7_S500), (2, body_OP7_S500)] [])) =
       [RequestsGet (FLASK_URL_BASE @ strip (lit ''OP7,S500'')), SubprocessRun (node_cmd (lit ''OP7'')),
        BasicAck 1,
        RequestsGet (FLASK_URL_BASE @ strip (lit ''OP7,S500'')), SubprocessRun (node_cmd (lit ''OP7'')),
        BasicAck 2]"
  using second_delivery_repeats_both_actions
    [OF body_OP7_S500_decodes decode_OP7_S500 world_ok_prints world_ok_acks, of 1 2]
  by (simp add: body_OP7_S500_decodes decode_OP7_S500)

text \<open>
  Claim C3 as stated asks for one HTTP request and one process in total. Two deliveries
  of \<open>OP7,S500\<close> give two of each.
\<close>

theorem duplicate_delivery_counterexample:
  "length (filter is_http (calls (snd (start_consuming world_ok [(1, body_OP7_S500), (2, body_OP7_S500)] [])))) = 2
   \<and> length (filter is_run (calls (snd (start_consuming world_ok [(1, body_OP7_S500), (2, body_OP7_S500)] [])))) = 2"
  by (simp add: run_defs body_OP7_S500_decodes url_OP7_S500 unpack_OP7_S500 cmd_OP7
      world_ok_def)








section \<open>Publishing\<close>

text \<open>
  Claim C8, as the code has it. Whatever happened before, a call of \<open>send_to_rabbitmq\<close>
  opens one connection of its own and then opens a channel, declares the queue,
  publishes, closes the connection and prints a line. When one of these calls fails
  there is no reconnect and no retry: \<open>send_to_rabbitmq\<close> raises the exception of the
  failing call, which is its last call, after exactly one connection attempt. When no
  call fails, the producer can publish again and again, each time with these six calls.
\<close>

theorem publish_makes_one_attempt:
  "(\<exists>evs. snd (send_to_rabbitmq w data tr) = tr @ evs
      \<and> prefix (calls evs) (publish_calls data)
      \<and> filter is_connect (calls evs) = [BlockingConnection RABBITMQ_HOST]
      \<and> (\<forall>c e. (c, Raises e) \<in> set evs \<longrightarrow> fst (send_to_rabbitmq w data tr) = Inl e)
      \<and> (\<forall>e. fst (send_to_rabbitmq w data tr) = Inl e \<longrightarrow> snd (last evs) = Raises e)
      \<and> (\<forall>ev\<in>set (butlast evs). \<not> raised ev)
      \<and> (fst (send_to_rabbitmq w data tr) = Inr () \<longrightarrow> calls evs = publish_calls data))
   \<and> ((\<forall>tr c e. w tr c \<noteq> Raises e) \<longrightarrow>
        fst (producer_main w qs tr) = Inr ()
        \<and> calls (snd (producer_main w qs tr)) =
            calls tr @ concat (map publish_calls (filter (\<lambda>q. q \<noteq> []) qs)))"
  using send_to_rabbitmq_shape [of w data tr] producer_main_all [of w qs tr]
  by blast

theorem publish_makes_one_attempt_witness:
  "fst (producer_main world_ok [lit ''OP7,S500'', [], lit ''OP8,S501''] []) = Inr ()
   \<and> calls (snd (producer_main world_ok [lit ''OP7,S500'', [], lit ''OP8,S501''] [])) =
       publish_calls (lit ''OP7,S500'') @ publish_calls (lit ''OP8,S501'')
   \<and> fst (send_to_rabbitmq world_flaky (lit ''OP7,S500'') []) = Inl AMQPConnectionError
   \<and> filter is_connect (calls (snd (send_to_rabbitmq world_flaky (lit ''OP7,S500'') []))) =
       [BlockingConnection RABBITMQ_HOST]"
proof -
  have ne: "lit ''OP7,S500'' \<noteq> []" "lit ''OP8,S501'' \<noteq> []"
    by (simp_all add: lit_def)
  have tr: "snd (send_to_rabbitmq world_flaky (lit ''OP7,S500'') []) =
      [(BlockingConnection RABBITMQ_HOST, Raises AMQPConnectionError)]"
    by (simp add: send_to_rabbitmq_def and_then_def invoke_def world_flaky_def)
  from publish_makes_one_attempt [of world_ok "lit ''OP7,S500''" "[]"
      "[lit ''OP7,S500'', [], lit ''OP8,S501'']"] world_ok_all ne
  have a: "fst (producer_main world_ok [lit ''OP7,S500'', [], lit ''OP8,S501''] []) = Inr ()"
    and b: "calls (snd (producer_main world_ok [lit ''OP7,S500'', [], lit ''OP8,S501''] [])) =
       publish_calls (lit ''OP7,S500'') @ publish_calls (lit ''OP8,S501'')"
    by auto
  from publish_makes_one_attempt [of world_flaky "lit ''OP7,S500''" "[]" "[]"] tr
  have c: "fst (send_to_rabbitmq world_flaky (lit ''OP7,S500'') []) = Inl AMQPConnectionError"
    by auto
  from a b c tr show ?thesis by simp
qed

text \<open>
  Claim C8 as stated asks for one reconnect-and-retry. Where the first connection fails
  and a second one would succeed, \<open>send_to_rabbitmq\<close> raises after the first.
\<close>

theorem publish_does_not_reconnect_counterexample:
  "send_to_rabbitmq world_flaky (lit ''OP7,S500'') [] =
     (Inl AMQPConnectionError, [(BlockingConnection RABBITMQ_HOST, Raises AMQPConnectionError)])
   \<and> world_flaky [(BlockingConnection RABBITMQ_HOST, Raises AMQPConnectionError)]
        (BlockingConnection RABBITMQ_HOST) = Returns NoneVal"
  by (simp add: send_to_rabbitmq_def and_then_def invoke_def world_flaky_def)

end
